theory Spec2Isabelle
  imports Complex_Main
begin

section \<open>JavaScript values\<close>

text \<open>
  A JavaScript number is a finite value, one of the two infinities or NaN. Finite doubles
  are embedded in the reals; the comparisons of the validator are exact on doubles, so
  nothing is lost there. The argument of \<open>playFrequency\<close> is any JavaScript value, since
  \<open>isValidFrequency\<close> starts with a \<open>typeof\<close> test.
\<close>

datatype jsnum = NaN | NegInfinity | Fin real | Infinity

datatype jsval = JNumber jsnum | JString string | JBool bool | JUndefined | JNull

text \<open>\<open>a < b\<close> on numbers: false as soon as one side is NaN.\<close>

fun js_lt :: "jsnum \<Rightarrow> jsnum \<Rightarrow> bool" where
  "js_lt NaN b = False"
| "js_lt a NaN = False"
| "js_lt (Fin a) (Fin b) = (a < b)"
| "js_lt (Fin a) Infinity = True"
| "js_lt (Fin a) NegInfinity = False"
| "js_lt NegInfinity NegInfinity = False"
| "js_lt NegInfinity b = True"
| "js_lt Infinity b = False"

definition js_gt :: "jsnum \<Rightarrow> jsnum \<Rightarrow> bool" where
  "js_gt a b = js_lt b a"

text \<open>
  core/pure.js:
  \<^verbatim>\<open>export const isValidFrequency = (freq) => {
    return typeof freq === 'number' && freq > 0 && freq < 20000;
  };\<close>
\<close>

definition isValidFrequency :: "jsval \<Rightarrow> bool" where
  "isValidFrequency freq =
     (case freq of
        JNumber n \<Rightarrow> js_gt n (Fin 0) \<and> js_lt n (Fin 20000)
      | _ \<Rightarrow> False)"

section \<open>The audio graph and the engine state\<close>

datatype ctxstate = Suspended | Running

record audioctx =
  ctxState :: ctxstate
  currentTime :: real

text \<open>
  The calls made on \<open>gainNode.gain\<close> are recorded in the order they are made;
  \<open>gainValue\<close> is what reading \<open>gainNode.gain.value\<close> returns.
\<close>

datatype automation = SetValueAtTime real real | LinearRampToValueAtTime real real

record gainnode =
  gainValue :: real
  gainEvents :: "automation list"
  toDestination :: bool

text \<open>
  An oscillator node. Oscillators live in a store (\<open>voices\<close> below) and are referred to
  by their index there, so that the module variable \<open>oscillator\<close>, the local
  \<open>oldOscillator\<close> and the closure of the cleanup timer can alias the same node.
\<close>

record voice =
  wave :: string
  frequency :: jsval
  connected :: bool
  startedAt :: "real option"
  stopAt :: "real option"

text \<open>
  What the browser decides: whether \<open>window.AudioContext || window.webkitAudioContext\<close>
  is defined, whether a new context starts suspended, whether \<open>stop\<close> or
  \<open>disconnect\<close> on a given oscillator throws, and whether \<open>localStorage\<close> throws.
\<close>

record platform =
  hasAudioApi :: bool
  startsSuspended :: bool
  stopThrows :: "nat \<Rightarrow> bool"
  disconnectThrows :: "nat \<Rightarrow> bool"
  storageThrows :: bool

datatype api = PlayFrequency | TransitionFrequency | StopSound | SetMuteState | EnsureAudioContext

type_synonym promise = "nat \<times> api"

datatype error = InvalidFrequency jsval | TypeError string

datatype result = Timestamp real | Null | Void

datatype outcome = Resolved result | Rejected error

text \<open>
  \<open>stopSound\<close> is awaited either by the caller of the module or by \<open>playFrequency\<close>
  (line 59), which then goes on at line 62.
\<close>

datatype awaiter = Caller promise | InPlay promise jsval

text \<open>
  The rest of an async function after an \<open>await\<close>, queued as a microtask (or parked
  until \<open>audioContext.resume()\<close> settles).
\<close>

datatype job =
    PlayAfterEnsure promise jsval
  | PlayAfterStop promise jsval
  | TransitionAfterEnsure promise jsval
  | MuteAfterEnsure promise bool
  | EnsureDone promise
  | Rethrow promise error

text \<open>The two \<open>setTimeout\<close> callbacks of the module (lines 160 and 129).\<close>

datatype callback = StopAfterFade awaiter | Cleanup nat

datatype logentry = Info string | Warn string | Log string

record world =
  platform :: platform
  audioContext :: "audioctx option"
  gainNode :: "gainnode option"
  oscillator :: "nat option"
  isPlaying :: bool
  voices :: "voice list"
  tol_volume :: "int option"
  wallClock :: real
  microtasks :: "job list"
  timers :: "(real \<times> callback) list"
  resumes :: "job list"
  nextCall :: nat
  outcomes :: "(promise \<times> outcome) list"
  console :: "logentry list"

text \<open>The module as loaded (lines 16-19), on a given browser with a given stored volume.\<close>

definition boot :: "platform \<Rightarrow> int option \<Rightarrow> world" where
  "boot p vol =
     \<lparr>platform = p, audioContext = None, gainNode = None, oscillator = None,
      isPlaying = False, voices = [], tol_volume = vol, wallClock = 0,
      microtasks = [], timers = [], resumes = [], nextCall = 0, outcomes = [],
      console = []\<rparr>"

definition settle :: "promise \<Rightarrow> outcome \<Rightarrow> world \<Rightarrow> world" where
  "settle p oc w = w\<lparr>outcomes := outcomes w @ [(p, oc)]\<rparr>"

definition say :: "logentry \<Rightarrow> world \<Rightarrow> world" where
  "say l w = w\<lparr>console := console w @ [l]\<rparr>"

definition onVoice :: "nat \<Rightarrow> (voice \<Rightarrow> voice) \<Rightarrow> voice list \<Rightarrow> voice list" where
  "onVoice v f vs = (if v < length vs then vs[v := f (vs ! v)] else vs)"

section \<open>Volume\<close>

text \<open>
  The volume preference is written by \<open>setVolume\<close> as \<open>volume.toString()\<close> and read
  back with \<open>parseInt(stored, 10)\<close>. Its only caller passes the integer position of the
  volume slider, so the stored string is a decimal integer and the model keeps the integer
  itself; \<open>None\<close> is the missing key.
  \<^verbatim>\<open>export const getVolume = () => {
    try {
      const stored = localStorage.getItem('tol_volume');
      return stored ? parseInt(stored, 10) : 75;
    } catch (err) {
      return 75; // Default volume
    }
  };\<close>
\<close>

definition getVolume :: "world \<Rightarrow> int" where
  "getVolume w =
     (if storageThrows (platform w) then 75
      else case tol_volume w of None \<Rightarrow> 75 | Some stored \<Rightarrow> stored)"

text \<open>Lines 70 and 116: \<open>(storedVolume / 100) * 0.3\<close>.\<close>

definition targetVolume :: "world \<Rightarrow> real" where
  "targetVolume w = (real_of_int (getVolume w) / 100) * 0.3"

text \<open>Lines 185-186: \<open>Math.max(0, Math.min(100, volume)) / 100\<close>, then \<open>* 0.3\<close>.\<close>

definition normalizedVolume :: "real \<Rightarrow> real" where
  "normalizedVolume volume = max 0 (min 100 volume) / 100"

definition audioVolume :: "real \<Rightarrow> real" where
  "audioVolume volume = normalizedVolume volume * 0.3"

text \<open>
  \<^verbatim>\<open>export const setVolume = (volume) => {
    if (!gainNode) return;
    ...
    const now = audioContext?.currentTime || 0;
    gainNode.gain.setValueAtTime(gainNode.gain.value, now);
    gainNode.gain.linearRampToValueAtTime(audioVolume, now + 0.1);
    try { localStorage.setItem('tol_volume', volume.toString()); }
    catch (err) { console.warn('Could not save volume:', err); }
  };\<close>
\<close>

definition setVolume :: "int \<Rightarrow> world \<Rightarrow> world" where
  "setVolume volume w =
     (case gainNode w of
        None \<Rightarrow> w
      | Some g \<Rightarrow>
          (let now = (case audioContext w of None \<Rightarrow> 0 | Some ctx \<Rightarrow> currentTime ctx);
               g' = g\<lparr>gainEvents := gainEvents g @
                      [SetValueAtTime (gainValue g) now,
                       LinearRampToValueAtTime (audioVolume (real_of_int volume)) (now + 0.1)]\<rparr>;
               w' = w\<lparr>gainNode := Some g'\<rparr>
           in if storageThrows (platform w) then say (Warn ''Could not save volume'') w'
              else w'\<lparr>tol_volume := Some volume\<rparr>))"

section \<open>The engine\<close>

text \<open>
  \<open>ensureAudioContext\<close> up to its only \<open>await\<close> (lines 25-37). The context and the
  gain node are created together; with no constructor on \<open>window\<close>, \<open>new AudioCtx()\<close>
  throws a TypeError. \<open>Awaiting\<close> says that \<open>audioContext.resume()\<close> was called and is
  being awaited.
\<close>

datatype ensured = Ready | Awaiting | Failed error

definition ensureAudioContext :: "world \<Rightarrow> world \<times> ensured" where
  "ensureAudioContext w =
     (case audioContext w of
        None \<Rightarrow>
          if \<not> hasAudioApi (platform w)
          then (w, Failed (TypeError ''AudioCtx is not a constructor''))
          else
            (let st = (if startsSuspended (platform w) then Suspended else Running);
                 w' = w\<lparr>audioContext := Some \<lparr>ctxState = st, currentTime = 0\<rparr>,
                        gainNode := Some \<lparr>gainValue = 0, gainEvents = [], toDestination = True\<rparr>\<rparr>
             in (w', if st = Suspended then Awaiting else Ready))
      | Some ctx \<Rightarrow> (w, if ctxState ctx = Suspended then Awaiting else Ready))"

text \<open>\<open>await ensureAudioContext()\<close> inside another async function of the module.\<close>

definition awaitEnsure :: "promise \<Rightarrow> job \<Rightarrow> world \<Rightarrow> world" where
  "awaitEnsure p k w =
     (case ensureAudioContext w of
        (w', Ready) \<Rightarrow> w'\<lparr>microtasks := microtasks w' @ [k]\<rparr>
      | (w', Awaiting) \<Rightarrow> w'\<lparr>resumes := resumes w' @ [k]\<rparr>
      | (w', Failed e) \<Rightarrow> w'\<lparr>microtasks := microtasks w' @ [Rethrow p e]\<rparr>)"

text \<open>Lines 62-78 of \<open>playFrequency\<close>: no \<open>await\<close> in there.\<close>

definition playFrequency_start :: "promise \<Rightarrow> jsval \<Rightarrow> world \<Rightarrow> world" where
  "playFrequency_start p freq w =
     (case audioContext w of
        None \<Rightarrow> settle p (Rejected (TypeError ''audioContext is null'')) w
      | Some ctx \<Rightarrow>
          (let v = length (voices w);
               now = currentTime ctx;
               osc = \<lparr>wave = ''sine'', frequency = freq, connected = False,
                      startedAt = None, stopAt = None\<rparr>
           in case gainNode w of
                None \<Rightarrow>
                  settle p (Rejected (TypeError ''connect: gainNode is null''))
                    (w\<lparr>voices := voices w @ [osc], oscillator := Some v\<rparr>)
              | Some g \<Rightarrow>
                  settle p (Resolved (Timestamp (wallClock w)))
                    (w\<lparr>voices := voices w @ [osc\<lparr>connected := True, startedAt := Some now\<rparr>],
                       oscillator := Some v,
                       gainNode := Some (g\<lparr>gainEvents := gainEvents g @
                          [SetValueAtTime 0 now,
                           LinearRampToValueAtTime (targetVolume w) (now + 0.5)]\<rparr>),
                       isPlaying := True\<rparr>)))"

text \<open>What the awaiter of \<open>stopSound\<close> does with its result when \<open>stopSound\<close> returns
  without having waited for its timer.\<close>

fun hand_back :: "awaiter \<Rightarrow> result \<Rightarrow> world \<Rightarrow> world" where
  "hand_back (Caller p) r w = settle p (Resolved r) w"
| "hand_back (InPlay p freq) r w = w\<lparr>microtasks := microtasks w @ [PlayAfterStop p freq]\<rparr>"

text \<open>
  \<open>stopSound\<close> up to its \<open>await\<close> (lines 148-160). A null \<open>audioContext\<close> or
  \<open>gainNode\<close> throws inside the \<open>try\<close> and lands in the \<open>catch\<close> of line 168.
\<close>

definition fadeTime :: real where
  "fadeTime = 0.8"

definition stopSound :: "awaiter \<Rightarrow> world \<Rightarrow> world" where
  "stopSound a w =
     (if oscillator w = None \<or> \<not> isPlaying w then hand_back a Null w
      else case (audioContext w, gainNode w) of
             (Some ctx, Some g) \<Rightarrow>
               (let now = currentTime ctx in
                w\<lparr>gainNode := Some (g\<lparr>gainEvents := gainEvents g @
                      [SetValueAtTime (gainValue g) now,
                       LinearRampToValueAtTime 0 (now + fadeTime)]\<rparr>),
                  timers := timers w @ [(wallClock w + fadeTime * 1000, StopAfterFade a)]\<rparr>)
           | _ \<Rightarrow>
               hand_back a (Timestamp (wallClock w))
                 ((say (Warn ''Error stopping oscillator'') w)
                    \<lparr>oscillator := None, isPlaying := False\<rparr>))"

definition audioNow :: "world \<Rightarrow> real" where
  "audioNow w = (case audioContext w of None \<Rightarrow> 0 | Some ctx \<Rightarrow> currentTime ctx)"

text \<open>
  Lines 162-172 of \<open>stopSound\<close>, after the timer: stop and disconnect the current
  oscillator, if there is one; any throw goes to the \<open>catch\<close>.
\<close>

definition teardown :: "world \<Rightarrow> world" where
  "teardown w =
     (case oscillator w of
        None \<Rightarrow> w\<lparr>isPlaying := False\<rparr>
      | Some v \<Rightarrow>
          if stopThrows (platform w) v
          then (say (Warn ''Error stopping oscillator'') w)
                 \<lparr>oscillator := None, isPlaying := False\<rparr>
          else
            (let w1 = w\<lparr>voices := onVoice v (\<lambda>x. x\<lparr>stopAt := Some (audioNow w)\<rparr>) (voices w)\<rparr>
             in if disconnectThrows (platform w) v
                then (say (Warn ''Error stopping oscillator'') w1)
                       \<lparr>oscillator := None, isPlaying := False\<rparr>
                else w1\<lparr>voices := onVoice v (\<lambda>x. x\<lparr>connected := False\<rparr>) (voices w1),
                        oscillator := None, isPlaying := False\<rparr>))"

text \<open>
  The whole timer task of line 160: the callback resolves the promise \<open>stopSound\<close>
  awaits, \<open>stopSound\<close> runs to its \<open>return Date.now()\<close>, and an awaiting
  \<open>playFrequency\<close> resumes at line 62 in the same microtask checkpoint, the queue
  being empty when a timer task starts.
\<close>

definition stopSound_resume :: "awaiter \<Rightarrow> world \<Rightarrow> world" where
  "stopSound_resume a w =
     (let w' = teardown w
      in case a of
           Caller p \<Rightarrow> settle p (Resolved (Timestamp (wallClock w'))) w'
         | InPlay p freq \<Rightarrow> playFrequency_start p freq w')"

text \<open>Lines 57-60, then the rest of \<open>playFrequency\<close>.\<close>

definition playFrequency_resume :: "promise \<Rightarrow> jsval \<Rightarrow> world \<Rightarrow> world" where
  "playFrequency_resume p freq w =
     (case oscillator w of
        Some v \<Rightarrow> stopSound (InPlay p freq) w
      | None \<Rightarrow> playFrequency_start p freq w)"

text \<open>\<open>playFrequency\<close> up to its first \<open>await\<close> (lines 50-55).\<close>

definition playFrequency :: "promise \<Rightarrow> jsval \<Rightarrow> world \<Rightarrow> world" where
  "playFrequency p freq w =
     (if \<not> isValidFrequency freq then settle p (Rejected (InvalidFrequency freq)) w
      else awaitEnsure p (PlayAfterEnsure p freq) w)"

text \<open>\<open>transitionFrequency\<close> up to its \<open>await\<close> (lines 86-96).\<close>

definition transitionFrequency :: "promise \<Rightarrow> jsval \<Rightarrow> world \<Rightarrow> world" where
  "transitionFrequency p newFrequency w =
     (if \<not> isValidFrequency newFrequency
      then settle p (Rejected (InvalidFrequency newFrequency)) w
      else if oscillator w = None \<or> \<not> isPlaying w then playFrequency p newFrequency w
      else awaitEnsure p (TransitionAfterEnsure p newFrequency) w)"

definition crossfadeTime :: real where
  "crossfadeTime = 0.35"

text \<open>
  Lines 98-141 of \<open>transitionFrequency\<close>. Line 98 reads \<open>audioContext.currentTime\<close>,
  line 101 reads \<open>oscillator.frequency.value\<close>, line 110 connects to \<open>gainNode\<close>: each
  throws a TypeError on null. A throw of \<open>oldOscillator.stop\<close> is caught (line 124).
\<close>

definition transitionFrequency_resume :: "promise \<Rightarrow> jsval \<Rightarrow> world \<Rightarrow> world" where
  "transitionFrequency_resume p newFrequency w =
     (case audioContext w of
        None \<Rightarrow> settle p (Rejected (TypeError ''audioContext is null'')) w
      | Some ctx \<Rightarrow>
          (case oscillator w of
             None \<Rightarrow> settle p (Rejected (TypeError ''oscillator is null'')) w
           | Some oldOscillator \<Rightarrow>
               (let now = currentTime ctx;
                    v = length (voices w);
                    osc = \<lparr>wave = ''sine'', frequency = newFrequency, connected = False,
                           startedAt = None, stopAt = None\<rparr>;
                    w0 = say (Log ''Crossfading'') w
                in case gainNode w of
                     None \<Rightarrow>
                       settle p (Rejected (TypeError ''connect: gainNode is null''))
                         (w0\<lparr>voices := voices w @ [osc], oscillator := Some v\<rparr>)
                   | Some g \<Rightarrow>
                       (let currentGain = gainValue g;
                            w1 = w0\<lparr>voices := voices w @
                                       [osc\<lparr>connected := True, startedAt := Some now\<rparr>],
                                    oscillator := Some v,
                                    gainNode := Some (g\<lparr>gainEvents := gainEvents g @
                                      [SetValueAtTime currentGain now,
                                       LinearRampToValueAtTime 0 (now + crossfadeTime / 2),
                                       LinearRampToValueAtTime (targetVolume w)
                                         (now + crossfadeTime)]\<rparr>)\<rparr>;
                            w2 = (if stopThrows (platform w) oldOscillator
                                  then say (Warn ''Error stopping old oscillator'') w1
                                  else w1\<lparr>voices := onVoice oldOscillator
                                         (\<lambda>x. x\<lparr>stopAt := Some (now + crossfadeTime / 2)\<rparr>)
                                         (voices w1)\<rparr>);
                            w3 = w2\<lparr>timers := timers w2 @
                                       [(wallClock w + ((crossfadeTime / 2) * 1000 + 100),
                                         Cleanup oldOscillator)],
                                    isPlaying := True\<rparr>
                        in settle p (Resolved Void)
                             (say (Log ''New oscillator playing'') w3)))))"

text \<open>The cleanup callback of lines 129-136.\<close>

definition cleanup :: "nat \<Rightarrow> world \<Rightarrow> world" where
  "cleanup oldOscillator w =
     (if disconnectThrows (platform w) oldOscillator
      then say (Warn ''Error disconnecting old oscillator'') w
      else say (Log ''Old oscillator disconnected'')
             (w\<lparr>voices := onVoice oldOscillator (\<lambda>x. x\<lparr>connected := False\<rparr>) (voices w)\<rparr>))"

text \<open>
  \<^verbatim>\<open>export const setMuteState = async (muted) => {
    await ensureAudioContext();
    gainNode.gain.value = muted ? 0 : 0.15;
  };\<close>
\<close>

definition setMuteState_resume :: "promise \<Rightarrow> bool \<Rightarrow> world \<Rightarrow> world" where
  "setMuteState_resume p muted w =
     (case gainNode w of
        None \<Rightarrow> settle p (Rejected (TypeError ''gainNode is null'')) w
      | Some g \<Rightarrow>
          settle p (Resolved Void)
            (w\<lparr>gainNode := Some (g\<lparr>gainValue := (if muted then 0 else 0.15)\<rparr>)\<rparr>))"

definition setMuteState :: "promise \<Rightarrow> bool \<Rightarrow> world \<Rightarrow> world" where
  "setMuteState p muted w = awaitEnsure p (MuteAfterEnsure p muted) w"

text \<open>Line 218 and line 224.\<close>

definition getIsPlaying :: "world \<Rightarrow> bool" where
  "getIsPlaying w = isPlaying w"

definition getAudioTime :: "world \<Rightarrow> real option" where
  "getAudioTime w = map_option currentTime (audioContext w)"

section \<open>The event loop\<close>

text \<open>
  A run of the page is a list of events. \<open>Call\<close> is the caller invoking an exported
  function, which runs up to its first \<open>await\<close>. \<open>Microtask\<close> runs the oldest queued
  continuation. \<open>FireTimer\<close> runs the pending \<open>setTimeout\<close> callback that is due first,
  once it is due, and \<open>ResumeSettles\<close> is the browser resolving or rejecting the oldest
  pending \<open>audioContext.resume()\<close>: both are tasks, and a task starts only when the
  microtask queue is empty. \<open>Advance\<close> lets time pass (in milliseconds; the audio clock
  runs with it while the context is running), and \<open>Render\<close> is the audio thread
  updating the value that \<open>gainNode.gain.value\<close> reports.
\<close>

datatype call = Play jsval | Transition jsval | Stop | SetMute bool | SetVolume int | Ensure

datatype event =
    Call call
  | Microtask
  | FireTimer
  | ResumeSettles bool
  | Advance real
  | Render real

definition invoke :: "call \<Rightarrow> world \<Rightarrow> world" where
  "invoke c w =
     (let n = nextCall w; w0 = w\<lparr>nextCall := Suc n\<rparr>
      in case c of
           Play freq \<Rightarrow> playFrequency (n, PlayFrequency) freq w0
         | Transition freq \<Rightarrow> transitionFrequency (n, TransitionFrequency) freq w0
         | Stop \<Rightarrow> stopSound (Caller (n, StopSound)) w0
         | SetMute muted \<Rightarrow> setMuteState (n, SetMuteState) muted w0
         | SetVolume volume \<Rightarrow> setVolume volume w
         | Ensure \<Rightarrow>
             (case ensureAudioContext w0 of
                (w', Ready) \<Rightarrow> settle (n, EnsureAudioContext) (Resolved Void) w'
              | (w', Awaiting) \<Rightarrow>
                  w'\<lparr>resumes := resumes w' @ [EnsureDone (n, EnsureAudioContext)]\<rparr>
              | (w', Failed e) \<Rightarrow> settle (n, EnsureAudioContext) (Rejected e) w'))"

fun runJob :: "job \<Rightarrow> world \<Rightarrow> world" where
  "runJob (PlayAfterEnsure p freq) w = playFrequency_resume p freq w"
| "runJob (PlayAfterStop p freq) w = playFrequency_start p freq w"
| "runJob (TransitionAfterEnsure p freq) w = transitionFrequency_resume p freq w"
| "runJob (MuteAfterEnsure p muted) w = setMuteState_resume p muted w"
| "runJob (EnsureDone p) w = settle p (Resolved Void) w"
| "runJob (Rethrow p e) w = settle p (Rejected e) w"

fun runCallback :: "callback \<Rightarrow> world \<Rightarrow> world" where
  "runCallback (StopAfterFade a) w = stopSound_resume a w"
| "runCallback (Cleanup v) w = cleanup v w"

text \<open>The pending timer that is due first; the older one among equals.\<close>

fun earliest :: "(real \<times> callback) list \<Rightarrow> (real \<times> callback) option" where
  "earliest [] = None"
| "earliest (t # ts) =
     (case earliest ts of
        None \<Rightarrow> Some t
      | Some u \<Rightarrow> if fst t \<le> fst u then Some t else Some u)"

text \<open>
  Lines 36-41: a rejected \<open>resume\<close> is caught and logged, and \<open>ensureAudioContext\<close>
  returns normally either way, so the parked continuation is queued in both cases.
\<close>

definition resumeSettles :: "bool \<Rightarrow> world \<Rightarrow> world" where
  "resumeSettles ok w =
     (case resumes w of
        [] \<Rightarrow> w
      | k # ks \<Rightarrow>
          (let w' = w\<lparr>resumes := ks, microtasks := microtasks w @ [k]\<rparr>
           in if ok
              then w'\<lparr>audioContext := map_option (\<lambda>ctx. ctx\<lparr>ctxState := Running\<rparr>) (audioContext w)\<rparr>
              else say (Info ''Audio context suspended, will resume on user interaction'') w'))"

fun step :: "event \<Rightarrow> world \<Rightarrow> world" where
  "step (Call c) w = invoke c w"
| "step Microtask w =
     (case microtasks w of
        [] \<Rightarrow> w
      | k # ks \<Rightarrow> runJob k (w\<lparr>microtasks := ks\<rparr>))"
| "step FireTimer w =
     (if microtasks w \<noteq> [] then w
      else case earliest (timers w) of
             None \<Rightarrow> w
           | Some (due, cb) \<Rightarrow>
               if due \<le> wallClock w
               then runCallback cb (w\<lparr>timers := remove1 (due, cb) (timers w)\<rparr>)
               else w)"
| "step (ResumeSettles ok) w = (if microtasks w \<noteq> [] then w else resumeSettles ok w)"
| "step (Advance dt) w =
     (if dt < 0 then w
      else w\<lparr>wallClock := wallClock w + dt,
             audioContext := map_option
               (\<lambda>ctx. if ctxState ctx = Running
                      then ctx\<lparr>currentTime := currentTime ctx + dt / 1000\<rparr> else ctx)
               (audioContext w)\<rparr>)"
| "step (Render r) w =
     w\<lparr>gainNode := map_option (\<lambda>g. g\<lparr>gainValue := r\<rparr>) (gainNode w)\<rparr>"

fun run :: "event list \<Rightarrow> world \<Rightarrow> world" where
  "run [] w = w"
| "run (e # es) w = run es (step e w)"

text \<open>A browser with the Web Audio API, whose context starts running and whose nodes
  never throw.\<close>

definition browser :: platform where
  "browser = \<lparr>hasAudioApi = True, startsSuspended = False, stopThrows = (\<lambda>v. False),
              disconnectThrows = (\<lambda>v. False), storageThrows = False\<rparr>"

section \<open>Observations and reference states\<close>

text \<open>The automation calls made so far on \<open>gainNode.gain\<close>.\<close>

definition gainSchedule :: "world \<Rightarrow> automation list" where
  "gainSchedule w = (case gainNode w of None \<Rightarrow> [] | Some g \<Rightarrow> gainEvents g)"

text \<open>
  The two module variables the orchestrator reads through \<open>getIsPlaying\<close> agree:
  something is reported as playing exactly when there is a current oscillator.
\<close>

definition coupled :: "world \<Rightarrow> bool" where
  "coupled w \<longleftrightarrow> (getIsPlaying w \<longleftrightarrow> oscillator w \<noteq> None)"

text \<open>
  The audio graph is in place wherever the code relies on it: a current oscillator was
  created from the context, and the gain node is created with the context (lines 28-32).
\<close>

definition wired :: "world \<Rightarrow> bool" where
  "wired w \<longleftrightarrow>
     (oscillator w \<noteq> None \<longrightarrow> audioContext w \<noteq> None) \<and>
     (audioContext w \<noteq> None \<longrightarrow> gainNode w \<noteq> None)"

definition sound :: "world \<Rightarrow> bool" where
  "sound w \<longleftrightarrow> coupled w \<and> wired w"

text \<open>The page after \<open>ensureAudioContext()\<close>, and after \<open>await playFrequency(432)\<close>.\<close>

definition ready :: world where
  "ready = run [Call Ensure] (boot browser None)"

definition playing432 :: world where
  "playing432 = run [Call (Play (JNumber (Fin 432))), Microtask] (boot browser None)"


text \<open>A browser whose oscillators throw on \<open>stop\<close>, and one without the Web Audio API.\<close>

definition brittle :: platform where
  "brittle = browser\<lparr>stopThrows := (\<lambda>v. True)\<rparr>"


section \<open>Invariants of a run\<close>

text \<open>The only continuation that is queued with a current oscillator still in place
  would be line 62 of \<open>playFrequency\<close> after a \<open>stopSound\<close> that returned at once.\<close>

fun afterStop :: "job \<Rightarrow> bool" where
  "afterStop (PlayAfterStop p f) = True"
| "afterStop k = False"

text \<open>
  Every connected oscillator is accounted for: it is the current one, or the cleanup timer
  of a crossfade still holds it, or the browser threw when it was stopped or disconnected.
\<close>

definition covered :: "world \<Rightarrow> bool" where
  "covered w \<longleftrightarrow>
     (\<forall>i < length (voices w). connected (voices w ! i) \<longrightarrow>
        oscillator w = Some i \<or> Cleanup i \<in> snd ` set (timers w)
        \<or> stopThrows (platform w) i \<or> disconnectThrows (platform w) i)"

definition tidy :: "world \<Rightarrow> bool" where
  "tidy w \<longleftrightarrow>
     sound w \<and> (\<forall>v. oscillator w = Some v \<longrightarrow> v < length (voices w))
     \<and> (\<forall>k \<in> set (microtasks w) \<union> set (resumes w). \<not> afterStop k) \<and> covered w"

text \<open>The number of oscillators connected to the gain node, and a page at rest.\<close>

definition connectedCount :: "world \<Rightarrow> nat" where
  "connectedCount w = length (filter connected (voices w))"

definition settled :: "world \<Rightarrow> bool" where
  "settled w \<longleftrightarrow> microtasks w = [] \<and> timers w = [] \<and> resumes w = []"

text \<open>\<open>await playFrequency(432)\<close>, then two awaited \<open>transitionFrequency\<close> calls
  in a row.\<close>

definition rapid :: "event list" where
  "rapid = [Call (Play (JNumber (Fin 432))), Microtask,
            Call (Transition (JNumber (Fin 528))), Microtask,
            Call (Transition (JNumber (Fin 639))), Microtask]"

text \<open>
  The rejections the engine can produce: \<open>InvalidFrequency\<close> for an invalid argument of
  \<open>playFrequency\<close> or \<open>transitionFrequency\<close>; the TypeError of \<open>new AudioCtx()\<close>
  on a browser without the API; and, where the context starts suspended, the TypeError
  of line 101 when \<open>transitionFrequency\<close> resumes with no current oscillator.
\<close>

fun rejectionAllowed :: "platform \<Rightarrow> promise \<times> outcome \<Rightarrow> bool" where
  "rejectionAllowed pl (p, Resolved r) = True"
| "rejectionAllowed pl (p, Rejected (InvalidFrequency f)) =
     (\<not> isValidFrequency f \<and> (snd p = PlayFrequency \<or> snd p = TransitionFrequency))"
| "rejectionAllowed pl (p, Rejected (TypeError m)) =
     (snd p \<noteq> StopSound \<and>
      ((\<not> hasAudioApi pl \<and> m = ''AudioCtx is not a constructor'') \<or>
       (startsSuspended pl \<and> snd p = TransitionFrequency \<and> m = ''oscillator is null'')))"

fun jobAllowed :: "platform \<Rightarrow> job \<Rightarrow> bool" where
  "jobAllowed pl (Rethrow p e) =
     (snd p \<noteq> StopSound \<and> \<not> hasAudioApi pl \<and> e = TypeError ''AudioCtx is not a constructor'')"
| "jobAllowed pl (TransitionAfterEnsure p f) = (snd p = TransitionFrequency)"
| "jobAllowed pl k = True"

fun needsCtx :: "job \<Rightarrow> bool" where
  "needsCtx (Rethrow p e) = False"
| "needsCtx (EnsureDone p) = False"
| "needsCtx k = True"

fun isTransition :: "job \<Rightarrow> bool" where
  "isTransition (TransitionAfterEnsure p f) = True"
| "isTransition k = False"

definition calm :: "world \<Rightarrow> bool" where
  "calm w \<longleftrightarrow>
     list_all (rejectionAllowed (platform w)) (outcomes w)
     \<and> list_all (jobAllowed (platform w)) (microtasks w @ resumes w)
     \<and> (list_ex needsCtx (microtasks w @ resumes w) \<or> timers w \<noteq> [] \<longrightarrow> audioContext w \<noteq> None)
     \<and> (\<not> startsSuspended (platform w) \<longrightarrow>
          resumes w = []
          \<and> (\<forall>ctx. audioContext w = Some ctx \<longrightarrow> ctxState ctx = Running)
          \<and> (list_ex isTransition (microtasks w) \<longrightarrow> oscillator w \<noteq> None))"

text \<open>A browser whose context starts suspended (autoplay policy).\<close>

definition muted_start :: platform where
  "muted_start = browser\<lparr>startsSuspended := True\<rparr>"

text \<open>
  A tone started although the first \<open>resume\<close> was declined, then \<open>stopSound()\<close>
  called: the fade is under way and the oscillator is still current. And what follows:
  \<open>transitionFrequency(528)\<close> is called, the fade timer fires while it waits for its
  own \<open>resume\<close>, and only then does that \<open>resume\<close> settle.
\<close>

definition fading_suspended :: "event list" where
  "fading_suspended =
     [Call (Play (JNumber (Fin 432))), ResumeSettles False, Microtask, Call Stop]"

definition resumed_after_fade :: "event list" where
  "resumed_after_fade =
     [Call (Transition (JNumber (Fin 528))), Advance 800, FireTimer, ResumeSettles True,
      Microtask]"

section \<open>Basic facts\<close>

lemmas engine_defs = boot_def settle_def say_def onVoice_def getVolume_def targetVolume_def
  setVolume_def ensureAudioContext_def awaitEnsure_def playFrequency_start_def stopSound_def
  teardown_def stopSound_resume_def playFrequency_resume_def playFrequency_def
  transitionFrequency_def transitionFrequency_resume_def cleanup_def setMuteState_def
  setMuteState_resume_def invoke_def resumeSettles_def browser_def isValidFrequency_def
  js_gt_def audioNow_def fadeTime_def crossfadeTime_def audioVolume_def normalizedVolume_def
  gainSchedule_def Let_def

lemma isValidFrequency_iff:
  "isValidFrequency freq \<longleftrightarrow> (\<exists>r. freq = JNumber (Fin r) \<and> 0 < r \<and> r < 20000)"
  by (cases freq; simp add: isValidFrequency_def js_gt_def)
     (rename_tac n; case_tac n; simp)

lemma outcomes_awaitEnsure: "outcomes (awaitEnsure p k w) = outcomes w"
  by (simp add: awaitEnsure_def ensureAudioContext_def Let_def split: option.splits)


lemma transition_call_valid:
  assumes "isValidFrequency f" "oscillator w = Some old" "isPlaying w" "audioContext w = Some ctx"
  shows "step (Call (Transition f)) w =
          (if ctxState ctx = Suspended
           then w\<lparr>nextCall := Suc (nextCall w),
                  resumes := resumes w @ [TransitionAfterEnsure (nextCall w, TransitionFrequency) f]\<rparr>
           else w\<lparr>nextCall := Suc (nextCall w),
                  microtasks := microtasks w @ [TransitionAfterEnsure (nextCall w, TransitionFrequency) f]\<rparr>)"
  using assms
  by (simp add: invoke_def transitionFrequency_def awaitEnsure_def ensureAudioContext_def Let_def)

lemma transition_resume_eq:
  assumes "oscillator w = Some old" "audioContext w = Some ctx" "gainNode w = Some g"
    "old < length (voices w)" "\<not> stopThrows (platform w) old"
  shows "transitionFrequency_resume p f w =
     w\<lparr>voices := (voices w)[old := (voices w ! old)\<lparr>stopAt := Some (currentTime ctx + 0.35 / 2)\<rparr>] @
          [\<lparr>wave = ''sine'', frequency = f, connected = True,
            startedAt = Some (currentTime ctx), stopAt = None\<rparr>],
       oscillator := Some (length (voices w)),
       gainNode := Some (g\<lparr>gainEvents := gainEvents g @
          [SetValueAtTime (gainValue g) (currentTime ctx),
           LinearRampToValueAtTime 0 (currentTime ctx + 0.35 / 2),
           LinearRampToValueAtTime (targetVolume w) (currentTime ctx + 0.35)]\<rparr>),
       timers := timers w @ [(wallClock w + 275, Cleanup old)],
       isPlaying := True,
       console := console w @ [Log ''Crossfading'', Log ''New oscillator playing''],
       outcomes := outcomes w @ [(p, Resolved Void)]\<rparr>"
  using assms
  by (simp add: transitionFrequency_resume_def Let_def say_def settle_def onVoice_def
      crossfadeTime_def list_update_append1 nth_append)

lemma play_start_eq:
  assumes "audioContext w = Some ctx" "gainNode w = Some g"
  shows "playFrequency_start p f w =
     w\<lparr>voices := voices w @
          [\<lparr>wave = ''sine'', frequency = f, connected = True,
            startedAt = Some (currentTime ctx), stopAt = None\<rparr>],
       oscillator := Some (length (voices w)),
       gainNode := Some (g\<lparr>gainEvents := gainEvents g @
          [SetValueAtTime 0 (currentTime ctx),
           LinearRampToValueAtTime (targetVolume w) (currentTime ctx + 0.5)]\<rparr>),
       isPlaying := True,
       outcomes := outcomes w @ [(p, Resolved (Timestamp (wallClock w)))]\<rparr>"
  using assms by (simp add: playFrequency_start_def Let_def settle_def)


subsection \<open>The two playback variables stay coupled\<close>

lemma sound_boot: "sound (boot p vol)"
  by (simp add: sound_def coupled_def getIsPlaying_def wired_def boot_def)

lemma sound_settle [simp]: "sound (settle p oc w) = sound w"
  by (simp add: sound_def coupled_def getIsPlaying_def wired_def settle_def)

lemma sound_say [simp]: "sound (say l w) = sound w"
  by (simp add: sound_def coupled_def getIsPlaying_def wired_def say_def)

lemma sound_upd [simp]:
  "sound (w\<lparr>nextCall := a\<rparr>) = sound w"
  "sound (w\<lparr>microtasks := b\<rparr>) = sound w"
  "sound (w\<lparr>timers := c\<rparr>) = sound w"
  "sound (w\<lparr>resumes := d\<rparr>) = sound w"
  by (simp_all add: sound_def coupled_def getIsPlaying_def wired_def)

lemma sound_ensure: "sound w \<Longrightarrow> ensureAudioContext w = (w', r) \<Longrightarrow> sound w'"
  by (auto simp: ensureAudioContext_def sound_def coupled_def getIsPlaying_def wired_def Let_def
      split: option.splits if_splits)

lemma sound_awaitEnsure: "sound w \<Longrightarrow> sound (awaitEnsure p k w)"
  by (auto simp: sound_def coupled_def getIsPlaying_def wired_def awaitEnsure_def
      ensureAudioContext_def Let_def split: option.splits)

lemma sound_start: "sound w \<Longrightarrow> sound (playFrequency_start p f w)"
  by (auto simp: sound_def coupled_def getIsPlaying_def wired_def playFrequency_start_def
      settle_def Let_def split: option.splits)

lemma sound_stopSound: "sound w \<Longrightarrow> sound (stopSound a w)"
  by (cases a) (auto simp: sound_def coupled_def getIsPlaying_def wired_def stopSound_def
      settle_def say_def Let_def split: option.splits)

lemma sound_teardown: "sound w \<Longrightarrow> sound (teardown w)"
  by (auto simp: sound_def coupled_def getIsPlaying_def wired_def teardown_def
      say_def Let_def split: option.splits)

lemma sound_stopSound_resume: "sound w \<Longrightarrow> sound (stopSound_resume a w)"
  by (cases a) (simp_all add: stopSound_resume_def Let_def sound_teardown sound_start)

lemma sound_transition_resume: "sound w \<Longrightarrow> sound (transitionFrequency_resume p f w)"
  by (auto simp: sound_def coupled_def getIsPlaying_def wired_def transitionFrequency_resume_def
      settle_def say_def Let_def split: option.splits)

lemma sound_cleanup: "sound w \<Longrightarrow> sound (cleanup v w)"
  by (auto simp: sound_def coupled_def getIsPlaying_def wired_def cleanup_def say_def)

lemma sound_mute_resume: "sound w \<Longrightarrow> sound (setMuteState_resume p m w)"
  by (auto simp: sound_def coupled_def getIsPlaying_def wired_def setMuteState_resume_def
      settle_def split: option.splits)

lemma sound_setVolume: "sound w \<Longrightarrow> sound (setVolume n w)"
  by (auto simp: sound_def coupled_def getIsPlaying_def wired_def setVolume_def say_def Let_def
      split: option.splits)

lemma sound_invoke: "sound w \<Longrightarrow> sound (invoke c w)"
proof -
  assume s: "sound w"
  show ?thesis
  proof (cases c)
    case (Play f)
    then show ?thesis using s
      by (simp add: invoke_def Let_def playFrequency_def sound_awaitEnsure)
  next
    case (Transition f)
    then show ?thesis using s
      by (simp add: invoke_def Let_def transitionFrequency_def playFrequency_def sound_awaitEnsure)
  next
    case Stop
    then show ?thesis using s by (simp add: invoke_def Let_def sound_stopSound)
  next
    case (SetMute m)
    then show ?thesis using s by (simp add: invoke_def Let_def setMuteState_def sound_awaitEnsure)
  next
    case (SetVolume n)
    then show ?thesis using s by (simp add: invoke_def Let_def sound_setVolume)
  next
    case Ensure
    obtain w' r where e: "ensureAudioContext (w\<lparr>nextCall := Suc (nextCall w)\<rparr>) = (w', r)"
      by (cases "ensureAudioContext (w\<lparr>nextCall := Suc (nextCall w)\<rparr>)")
    have "sound w'" using sound_ensure [OF _ e] s by simp
    then show ?thesis using Ensure e by (cases r) (simp_all add: invoke_def Let_def)
  qed
qed

lemma sound_runJob: "sound w \<Longrightarrow> sound (runJob k w)"
  by (cases k) (simp_all add: playFrequency_resume_def sound_start sound_stopSound
      sound_transition_resume sound_mute_resume split: option.splits)

lemma sound_runCallback: "sound w \<Longrightarrow> sound (runCallback cb w)"
  by (cases cb) (simp_all add: sound_stopSound_resume sound_cleanup)

lemma sound_step: "sound w \<Longrightarrow> sound (step e w)"
proof (cases e)
  case (Call c)
  assume "sound w" then show ?thesis using Call by (simp add: sound_invoke)
next
  case Microtask
  assume s: "sound w"
  show ?thesis
  proof (cases "microtasks w")
    case Nil
    then show ?thesis using s Microtask by simp
  next
    case (Cons k ks)
    show ?thesis using s Microtask Cons by (simp add: sound_runJob)
  qed
next
  case FireTimer
  assume s: "sound w"
  show ?thesis using s FireTimer
    by (simp add: sound_runCallback split: option.splits)
next
  case (ResumeSettles ok)
  assume s: "sound w"
  then show ?thesis using ResumeSettles
    by (auto simp: resumeSettles_def sound_def coupled_def getIsPlaying_def wired_def say_def Let_def
        split: list.splits)
next
  case (Advance dt)
  assume s: "sound w"
  then show ?thesis using Advance
    by (auto simp: sound_def coupled_def getIsPlaying_def wired_def)
next
  case (Render r)
  assume s: "sound w"
  then show ?thesis using Render
    by (auto simp: sound_def coupled_def getIsPlaying_def wired_def)
qed

lemma sound_run: "sound w \<Longrightarrow> sound (run es w)"
  by (induction es arbitrary: w) (simp_all add: sound_step)

subsection \<open>Connected oscillators are accounted for\<close>

lemma length_onVoice [simp]: "length (onVoice v f vs) = length vs"
  by (simp add: onVoice_def)

lemma nth_onVoice: "i < length vs \<Longrightarrow> onVoice v f vs ! i = (if i = v then f (vs ! i) else vs ! i)"
  by (simp add: onVoice_def)


lemma cover_remove1:
  "c \<in> snd ` set ts \<Longrightarrow> c \<noteq> cb \<Longrightarrow> c \<in> snd ` set (remove1 (due, cb) ts)"
proof -
  assume "c \<in> snd ` set ts" and ne: "c \<noteq> cb"
  then obtain d where d: "(d, c) \<in> set ts" by auto
  have "(d, c) \<noteq> (due, cb)" using ne by simp
  then have "(d, c) \<in> set (remove1 (due, cb) ts)" using d by (simp add: in_set_remove1)
  then show ?thesis by force
qed

lemma tidy_boot: "tidy (boot p vol)"
  by (simp add: tidy_def sound_boot covered_def) (simp add: boot_def)

lemma tidy_settle [simp]: "tidy (settle p oc w) = tidy w"
  by (simp add: tidy_def covered_def) (simp add: settle_def)

lemma tidy_say [simp]: "tidy (say l w) = tidy w"
  by (simp add: tidy_def covered_def) (simp add: say_def)

lemma tidy_nextCall [simp]: "tidy (w\<lparr>nextCall := a\<rparr>) = tidy w"
  by (simp add: tidy_def covered_def)

lemma tidy_awaitEnsure: "tidy w \<Longrightarrow> \<not> afterStop k \<Longrightarrow> tidy (awaitEnsure p k w)"
  unfolding tidy_def covered_def
  by (intro conjI, simp add: sound_awaitEnsure)
     (auto simp: awaitEnsure_def ensureAudioContext_def Let_def split: option.splits)

lemma tidy_start:
  assumes "tidy w" "oscillator w = None"
  shows "tidy (playFrequency_start p f w)"
proof -
  have s: "sound (playFrequency_start p f w)" using assms by (simp add: tidy_def sound_start)
  from assms have "wired w" by (simp add: tidy_def sound_def)
  show ?thesis
  proof (cases "audioContext w")
    case None
    then show ?thesis using assms by (simp add: playFrequency_start_def)
  next
    case (Some ctx)
    then obtain g where g: "gainNode w = Some g" using \<open>wired w\<close> by (auto simp: wired_def)
    show ?thesis
      unfolding tidy_def covered_def
      using s assms Some g
      by (auto simp: play_start_eq tidy_def covered_def nth_append)
  qed
qed

lemma sound_current:
  assumes "sound w" "oscillator w = Some v"
  obtains ctx g where "audioContext w = Some ctx" "gainNode w = Some g" "isPlaying w"
  using assms by (auto simp: sound_def coupled_def getIsPlaying_def wired_def)

lemma stopSound_fade:
  assumes "oscillator w = Some v" "audioContext w = Some ctx" "gainNode w = Some g" "isPlaying w"
  shows "stopSound a w =
     w\<lparr>gainNode := Some (g\<lparr>gainEvents := gainEvents g @
           [SetValueAtTime (gainValue g) (currentTime ctx),
            LinearRampToValueAtTime 0 (currentTime ctx + fadeTime)]\<rparr>),
       timers := timers w @ [(wallClock w + fadeTime * 1000, StopAfterFade a)]\<rparr>"
  using assms by (simp add: stopSound_def Let_def)

lemma tidy_stopSound_current:
  assumes "tidy w" "oscillator w = Some v"
  shows "tidy (stopSound a w)"
proof -
  from assms have "sound w" by (simp add: tidy_def)
  then obtain ctx g where c: "audioContext w = Some ctx" "gainNode w = Some g" "isPlaying w"
    using assms(2) by (rule sound_current)
  have "sound (stopSound a w)" using \<open>sound w\<close> by (rule sound_stopSound)
  then show ?thesis using assms
    unfolding tidy_def covered_def
    by (auto simp: stopSound_fade [OF assms(2) c])
qed

lemma tidy_stopSound_caller: "tidy w \<Longrightarrow> tidy (stopSound (Caller p) w)"
proof (cases "oscillator w")
  case None
  assume "tidy w"
  then show ?thesis using None by (simp add: stopSound_def)
next
  case (Some v)
  assume "tidy w"
  then show ?thesis using Some by (rule tidy_stopSound_current)
qed

lemma teardown_none: "oscillator (teardown w) = None"
  by (simp add: teardown_def say_def Let_def split: option.splits)

lemma tidy_teardown: "tidy w \<Longrightarrow> tidy (teardown w)"
  unfolding tidy_def covered_def
  by (intro conjI, simp add: sound_teardown)
     (auto simp: teardown_def say_def Let_def nth_onVoice split: option.splits)

lemma tidy_stopSound_resume: "tidy w \<Longrightarrow> tidy (stopSound_resume a w)"
  by (cases a) (simp_all add: stopSound_resume_def Let_def tidy_teardown tidy_start teardown_none)

lemma tidy_transition_resume:
  assumes "tidy w"
  shows "tidy (transitionFrequency_resume p f w)"
proof -
  have s: "sound (transitionFrequency_resume p f w)"
    using assms by (simp add: tidy_def sound_transition_resume)
  from assms have wi: "wired w" by (simp add: tidy_def sound_def)
  show ?thesis
  proof (cases "audioContext w")
    case None
    then show ?thesis using assms by (simp add: transitionFrequency_resume_def)
  next
    case (Some ctx)
    then obtain g where g: "gainNode w = Some g" using wi by (auto simp: wired_def)
    show ?thesis
    proof (cases "oscillator w")
      case None
      then show ?thesis using assms Some by (simp add: transitionFrequency_resume_def)
    next
      case (Some old)
      then have old: "old < length (voices w)" using assms by (simp add: tidy_def)
      show ?thesis
        unfolding tidy_def covered_def
        using s assms Some \<open>audioContext w = Some ctx\<close> g old
        apply (intro conjI)
           apply simp
          apply (simp add: transitionFrequency_resume_def Let_def say_def settle_def)
         apply (simp add: transitionFrequency_resume_def Let_def say_def settle_def tidy_def)
        apply (auto simp: transitionFrequency_resume_def Let_def say_def settle_def tidy_def
            covered_def nth_append nth_onVoice)
        done
    qed
  qed
qed

lemma tidy_mute_resume: "tidy w \<Longrightarrow> tidy (setMuteState_resume p m w)"
  unfolding tidy_def covered_def
  by (intro conjI, simp add: sound_mute_resume)
     (auto simp: setMuteState_resume_def settle_def split: option.splits)

lemma tidy_setVolume: "tidy w \<Longrightarrow> tidy (setVolume n w)"
  unfolding tidy_def covered_def
  by (intro conjI, simp add: sound_setVolume)
     (auto simp: setVolume_def say_def Let_def split: option.splits)

lemma tidy_invoke: "tidy w \<Longrightarrow> tidy (invoke c w)"
proof -
  assume s: "tidy w"
  show ?thesis
  proof (cases c)
    case (Play f)
    then show ?thesis using s
      by (simp add: invoke_def Let_def playFrequency_def tidy_awaitEnsure)
  next
    case (Transition f)
    then show ?thesis using s
      by (simp add: invoke_def Let_def transitionFrequency_def playFrequency_def tidy_awaitEnsure)
  next
    case Stop
    then show ?thesis using s by (simp add: invoke_def Let_def tidy_stopSound_caller)
  next
    case (SetMute m)
    then show ?thesis using s by (simp add: invoke_def Let_def setMuteState_def tidy_awaitEnsure)
  next
    case (SetVolume n)
    then show ?thesis using s by (simp add: invoke_def Let_def tidy_setVolume)
  next
    case Ensure
    have "tidy (awaitEnsure (nextCall w, EnsureAudioContext) (EnsureDone (nextCall w, EnsureAudioContext)) w)"
      using s by (simp add: tidy_awaitEnsure)
    then show ?thesis using Ensure s
      unfolding tidy_def covered_def sound_def coupled_def wired_def getIsPlaying_def
      by (auto simp: invoke_def Let_def awaitEnsure_def ensureAudioContext_def settle_def
          split: option.splits)
  qed
qed

lemma tidy_microtasks_tl:
  "tidy w \<Longrightarrow> microtasks w = k # ks \<Longrightarrow> tidy (w\<lparr>microtasks := ks\<rparr>)"
  by (auto simp: tidy_def covered_def sound_def coupled_def wired_def getIsPlaying_def)

lemma tidy_runJob: "tidy w \<Longrightarrow> \<not> afterStop k \<Longrightarrow> tidy (runJob k w)"
  by (cases k) (auto simp: playFrequency_resume_def tidy_start tidy_stopSound_current
      tidy_transition_resume tidy_mute_resume split: option.splits)

lemma tidy_drop_fade:
  "tidy w \<Longrightarrow> tidy (w\<lparr>timers := remove1 (due, StopAfterFade a) (timers w)\<rparr>)"
proof -
  have keep: "Cleanup i \<in> snd ` set (timers w) \<Longrightarrow>
      Cleanup i \<in> snd ` set (remove1 (due, StopAfterFade a) (timers w))" for i
    by (rule cover_remove1) simp_all
  assume "tidy w"
  then show ?thesis
    unfolding tidy_def covered_def using keep by simp blast
qed

lemma tidy_cleanup:
  assumes "tidy w"
  shows "tidy (cleanup v (w\<lparr>timers := remove1 (due, Cleanup v) (timers w)\<rparr>))"
proof -
  have s: "sound (cleanup v (w\<lparr>timers := remove1 (due, Cleanup v) (timers w)\<rparr>))"
    using assms by (simp add: tidy_def sound_cleanup)
  have keep: "Cleanup i \<in> snd ` set (timers w) \<Longrightarrow> i \<noteq> v \<Longrightarrow>
      Cleanup i \<in> snd ` set (remove1 (due, Cleanup v) (timers w))" for i
    by (rule cover_remove1) simp_all
  show ?thesis
    unfolding tidy_def covered_def
    using s assms
    apply (intro conjI)
       apply simp
      apply (simp add: cleanup_def say_def tidy_def)
     apply (simp add: cleanup_def say_def tidy_def)
    apply (auto simp: cleanup_def say_def tidy_def covered_def nth_onVoice)
     apply (metis keep)+
    done
qed

lemma tidy_fire:
  assumes "tidy w" 
  shows "tidy (runCallback cb (w\<lparr>timers := remove1 (due, cb) (timers w)\<rparr>))"
proof (cases cb)
  case (StopAfterFade a)
  then show ?thesis using assms by (simp add: tidy_drop_fade tidy_stopSound_resume)
next
  case (Cleanup v)
  then show ?thesis using assms by (simp add: tidy_cleanup)
qed

lemma tidy_resumeSettles: "tidy w \<Longrightarrow> tidy (resumeSettles ok w)"
  unfolding tidy_def covered_def
  by (auto simp: resumeSettles_def say_def Let_def sound_def coupled_def wired_def getIsPlaying_def
      split: list.splits)

lemma tidy_step: "tidy w \<Longrightarrow> tidy (step e w)"
proof (cases e)
  case (Call c)
  assume "tidy w" then show ?thesis using Call by (simp add: tidy_invoke)
next
  case Microtask
  assume s: "tidy w"
  show ?thesis
  proof (cases "microtasks w")
    case Nil
    then show ?thesis using s Microtask by simp
  next
    case (Cons k ks)
    have "\<not> afterStop k" using s Cons by (simp add: tidy_def)
    moreover have "tidy (w\<lparr>microtasks := ks\<rparr>)" using s Cons by (rule tidy_microtasks_tl)
    ultimately show ?thesis using Microtask Cons by (simp add: tidy_runJob)
  qed
next
  case FireTimer
  assume s: "tidy w"
  show ?thesis using s FireTimer
    by (simp add: tidy_fire split: option.splits)
next
  case (ResumeSettles ok)
  assume s: "tidy w"
  then show ?thesis using ResumeSettles by (simp add: tidy_resumeSettles)
next
  case (Advance dt)
  assume s: "tidy w"
  then show ?thesis using Advance
    by (auto simp: tidy_def covered_def sound_def coupled_def getIsPlaying_def wired_def)
next
  case (Render r)
  assume s: "tidy w"
  then show ?thesis using Render
    by (auto simp: tidy_def covered_def sound_def coupled_def getIsPlaying_def wired_def)
qed

lemma tidy_run: "tidy w \<Longrightarrow> tidy (run es w)"
  by (induction es arbitrary: w) (simp_all add: tidy_step)

subsection \<open>The platform is fixed\<close>

lemma platform_awaitEnsure [simp]: "platform (awaitEnsure p k w) = platform w"
  by (simp add: awaitEnsure_def ensureAudioContext_def Let_def split: option.splits)

lemma platform_start [simp]: "platform (playFrequency_start p f w) = platform w"
  by (simp add: playFrequency_start_def settle_def Let_def split: option.splits)

lemma platform_stopSound [simp]: "platform (stopSound a w) = platform w"
  by (cases a) (simp_all add: stopSound_def settle_def say_def Let_def split: option.splits)

lemma platform_teardown [simp]: "platform (teardown w) = platform w"
  by (simp add: teardown_def say_def Let_def split: option.splits)

lemma platform_stopSound_resume [simp]: "platform (stopSound_resume a w) = platform w"
  by (cases a) (simp_all add: stopSound_resume_def settle_def Let_def)

lemma platform_transition_resume [simp]: "platform (transitionFrequency_resume p f w) = platform w"
  by (simp add: transitionFrequency_resume_def settle_def say_def Let_def split: option.splits)

lemma platform_invoke [simp]: "platform (invoke c w) = platform w"
  by (cases c) (simp_all add: invoke_def playFrequency_def transitionFrequency_def
      setMuteState_def setVolume_def ensureAudioContext_def settle_def say_def Let_def
      split: option.splits)

lemma platform_runJob [simp]: "platform (runJob k w) = platform w"
  by (cases k) (simp_all add: playFrequency_resume_def setMuteState_resume_def settle_def
      split: option.splits)

lemma platform_runCallback [simp]: "platform (runCallback cb w) = platform w"
  by (cases cb) (simp_all add: cleanup_def say_def)

lemma platform_step [simp]: "platform (step e w) = platform w"
  by (cases e) (simp_all add: resumeSettles_def say_def Let_def split: list.splits option.splits)

lemma platform_run [simp]: "platform (run es w) = platform w"
  by (induction es arbitrary: w) simp_all

subsection \<open>Counting\<close>

lemma count_le:
  assumes "\<forall>i < length xs. P (xs ! i) \<longrightarrow> i \<in> A" "finite A"
  shows "length (filter P xs) \<le> card A"
proof -
  have "length (filter P xs) = card {i. i < length xs \<and> P (xs ! i)}"
    by (rule length_filter_conv_card)
  also have "\<dots> \<le> card A"
    using assms by (intro card_mono) auto
  finally show ?thesis .
qed

lemma cleanup_pending_card:
  "card {i. Cleanup i \<in> snd ` set ts} \<le> length ts"
proof -
  have "{i. Cleanup i \<in> snd ` set ts} = Cleanup -` (snd ` set ts)" by auto
  have "card (Cleanup ` {i. Cleanup i \<in> snd ` set ts}) \<le> card (snd ` set ts)"
    by (intro card_mono) auto
  moreover have "card (Cleanup ` {i. Cleanup i \<in> snd ` set ts}) = card {i. Cleanup i \<in> snd ` set ts}"
    by (intro card_image) (simp add: inj_on_def)
  moreover have "card (snd ` set ts) \<le> length ts"
    by (meson card_image_le card_length le_trans List.finite_set)
  ultimately show ?thesis by simp
qed

lemma covered_run: "covered (run es (boot p vol))"
  using tidy_run [OF tidy_boot, of es p vol] by (simp add: tidy_def)

lemma covered_count:
  assumes "covered w" "stopThrows (platform w) = (\<lambda>v. False)"
    "disconnectThrows (platform w) = (\<lambda>v. False)"
  shows "connectedCount w \<le> 1 + length (timers w)"
proof -
  let ?A = "set_option (oscillator w) \<union> {i. Cleanup i \<in> snd ` set (timers w)}"
  have fin: "finite {i. Cleanup i \<in> snd ` set (timers w)}"
  proof -
    have "{i. Cleanup i \<in> snd ` set (timers w)} = Cleanup -` (snd ` set (timers w))" by auto
    moreover have "finite (Cleanup -` (snd ` set (timers w)))"
      by (intro finite_vimageI) (simp_all add: inj_on_def)
    ultimately show ?thesis by simp
  qed
  have "\<forall>i < length (voices w). connected (voices w ! i) \<longrightarrow> i \<in> ?A"
    using assms by (auto simp: covered_def)
  then have "connectedCount w \<le> card ?A"
    unfolding connectedCount_def using fin by (intro count_le) auto
  also have "\<dots> \<le> card (set_option (oscillator w)) + card {i. Cleanup i \<in> snd ` set (timers w)}"
    by (rule card_Un_le)
  also have "\<dots> \<le> 1 + length (timers w)"
    using cleanup_pending_card [of "timers w"]
    by (cases "oscillator w") auto
  finally show ?thesis .
qed

subsection \<open>Rejections\<close>


lemma calm_settle [simp]:
  "calm (settle p oc w) = (calm w \<and> rejectionAllowed (platform w) (p, oc))"
  by (auto simp: calm_def settle_def)

lemma calm_say [simp]: "calm (say l w) = calm w"
  by (simp add: calm_def say_def)

lemma calm_nextCall [simp]: "calm (w\<lparr>nextCall := a\<rparr>) = calm w"
  by (simp add: calm_def)




















section \<open>The crossfade\<close>

text \<open>
  Claim C2. Every call of \<open>transitionFrequency\<close> made while an oscillator is current
  and playing should create and start a new oscillator, make it the current one, schedule
  the crossfade and keep \<open>isPlaying\<close> true. The code tests \<open>oscillator\<close> at line 91,
  awaits \<open>ensureAudioContext\<close> at line 96 and reads \<open>oscillator\<close> again at lines
  101 and 104 without testing it, where \<open>stopSound\<close> does test it again after its own
  \<open>await\<close> (line 162). In the run below the call is made with oscillator 0 current,
  connected and playing and with a valid frequency, and it is parked on \<open>resume\<close>;
  the fade timer of the earlier \<open>stopSound\<close> clears the oscillator meanwhile, and the
  call ends rejected with a TypeError: no second oscillator exists, none is current and
  \<open>isPlaying\<close> is false.
\<close>

theorem transition_loses_voice_while_awaiting:
  "isValidFrequency (JNumber (Fin 528))
   \<and> oscillator (run fading_suspended (boot muted_start None)) = Some 0
   \<and> isPlaying (run fading_suspended (boot muted_start None))
   \<and> map connected (voices (run fading_suspended (boot muted_start None))) = [True]
   \<and> resumes (step (Call (Transition (JNumber (Fin 528))))
         (run fading_suspended (boot muted_start None)))
       = [TransitionAfterEnsure (2, TransitionFrequency) (JNumber (Fin 528))]
   \<and> outcomes (run (fading_suspended @ resumed_after_fade) (boot muted_start None))
       = [((0, PlayFrequency), Resolved (Timestamp 0)),
          ((1, StopSound), Resolved (Timestamp 800)),
          ((2, TransitionFrequency), Rejected (TypeError ''oscillator is null''))]
   \<and> length (voices (run (fading_suspended @ resumed_after_fade) (boot muted_start None))) = 1
   \<and> oscillator (run (fading_suspended @ resumed_after_fade) (boot muted_start None)) = None
   \<and> \<not> isPlaying (run (fading_suspended @ resumed_after_fade) (boot muted_start None))
   \<and> timers (run (fading_suspended @ resumed_after_fade) (boot muted_start None)) = []"
  by (simp add: fading_suspended_def resumed_after_fade_def muted_start_def engine_defs)

text \<open>
  When the oscillator that was current at the call is still current as the continuation
  of line 98 runs, which is always so on a browser whose context starts running, the
  crossfade is
  set up as described: the continuation creates a connected sine oscillator at the new
  frequency, started at the audio clock's current time, and makes it the current one at
  once; it schedules the gain from its current value to 0 at half of the 0.35 s window and
  to the target volume at its end; it schedules the stop of the outgoing oscillator at
  that midpoint and sets a timer of 275 ms, later than the midpoint, whose callback
  disconnects the outgoing oscillator; \<open>isPlaying\<close> is true before and after.
\<close>

lemma crossfade_schedule_when_still_current:
  assumes "isValidFrequency f" "oscillator w = Some old" "isPlaying w"
    "audioContext w = Some ctx" "gainNode w = Some g" "old < length (voices w)"
    "\<not> stopThrows (platform w) old" "\<not> disconnectThrows (platform w) old"
    "w' = transitionFrequency_resume p f w"
  shows "step (Call (Transition f)) w =
          (if ctxState ctx = Suspended
           then w\<lparr>nextCall := Suc (nextCall w),
                  resumes := resumes w @ [TransitionAfterEnsure (nextCall w, TransitionFrequency) f]\<rparr>
           else w\<lparr>nextCall := Suc (nextCall w),
                  microtasks := microtasks w @ [TransitionAfterEnsure (nextCall w, TransitionFrequency) f]\<rparr>)
    \<and> runJob (TransitionAfterEnsure p f) w = w'
    \<and> length (voices w') = Suc (length (voices w))
    \<and> voices w' ! length (voices w) =
         \<lparr>wave = ''sine'', frequency = f, connected = True,
          startedAt = Some (currentTime ctx), stopAt = None\<rparr>
    \<and> oscillator w' = Some (length (voices w))
    \<and> isPlaying w'
    \<and> gainSchedule w' = gainSchedule w @
         [SetValueAtTime (gainValue g) (currentTime ctx),
          LinearRampToValueAtTime 0 (currentTime ctx + 0.35 / 2),
          LinearRampToValueAtTime (targetVolume w) (currentTime ctx + 0.35)]
    \<and> voices w' ! old = (voices w ! old)\<lparr>stopAt := Some (currentTime ctx + 0.35 / 2)\<rparr>
    \<and> timers w' = timers w @ [(wallClock w + (0.35 / 2 * 1000 + 100), Cleanup old)]
    \<and> voices (runCallback (Cleanup old) w') = (voices w')[old := (voices w' ! old)\<lparr>connected := False\<rparr>]
    \<and> outcomes w' = outcomes w @ [(p, Resolved Void)]"
  using assms(2-8) transition_call_valid[OF assms(1-4)]
  unfolding assms(9)
  by (simp add: transition_resume_eq gainSchedule_def nth_append cleanup_def say_def onVoice_def)

lemma crossfade_schedule_when_still_current_example:
  "isValidFrequency (JNumber (Fin 528)) \<and> oscillator playing432 = Some 0 \<and> isPlaying playing432
   \<and> oscillator (run [Call (Transition (JNumber (Fin 528))), Microtask] playing432) = Some 1
   \<and> timers (run [Call (Transition (JNumber (Fin 528))), Microtask] playing432) = [(275, Cleanup 0)]
   \<and> map stopAt (voices (run [Call (Transition (JNumber (Fin 528))), Microtask] playing432))
       = [Some 0.175, None]"
  using crossfade_schedule_when_still_current [of "JNumber (Fin 528)" playing432 0
      "\<lparr>ctxState = Running, currentTime = 0\<rparr>"
      "\<lparr>gainValue = 0, gainEvents = [SetValueAtTime 0 0, LinearRampToValueAtTime 0.225 0.5],
        toDestination = True\<rparr>"
      "transitionFrequency_resume (1, TransitionFrequency) (JNumber (Fin 528)) playing432"
      "(1, TransitionFrequency)"]
  by (simp add: playing432_def engine_defs)

section \<open>Starting a tone\<close>




section \<open>When the playback state changes\<close>

text \<open>
  Claim C5, as amended. No call of an exported function changes \<open>oscillator\<close> or
  \<open>isPlaying\<close> in its synchronous part, before its first \<open>await\<close>. \<open>stopSound\<close>
  with a tone playing only schedules the fade and an 800 ms timer; the two variables
  are cleared by the continuation that runs after that awaited delay, together with the
  teardown of the oscillator.
\<close>

theorem playback_state_changes_after_await:
  "(wired w \<longrightarrow>
      oscillator (step (Call c) w) = oscillator w \<and> isPlaying (step (Call c) w) = isPlaying w)
   \<and> (oscillator w = Some v \<and> isPlaying w \<and> wired w \<longrightarrow>
        timers (step (Call Stop) w) =
          timers w @ [(wallClock w + 800, StopAfterFade (Caller (nextCall w, StopSound)))]
        \<and> outcomes (step (Call Stop) w) = outcomes w)
   \<and> oscillator (runCallback (StopAfterFade (Caller p)) w) = None
   \<and> \<not> isPlaying (runCallback (StopAfterFade (Caller p)) w)"
  by (cases c) (auto simp: wired_def invoke_def playFrequency_def transitionFrequency_def
      awaitEnsure_def ensureAudioContext_def stopSound_def setMuteState_def setVolume_def
      settle_def say_def fadeTime_def stopSound_resume_def teardown_def Let_def
      split: option.splits)

theorem playback_state_changes_after_await_witness:
  "wired playing432 \<and> oscillator playing432 = Some 0 \<and> isPlaying playing432
   \<and> oscillator (step (Call Stop) playing432) = Some 0
   \<and> isPlaying (step (Call Stop) playing432)
   \<and> timers (step (Call Stop) playing432) = [(800, StopAfterFade (Caller (1, StopSound)))]"
  using playback_state_changes_after_await [of playing432 Stop 0]
  by (simp add: wired_def playing432_def engine_defs)

text \<open>
  Against C5 as stated: \<open>stopSound\<close> has reached its awaited delay with \<open>isPlaying\<close>
  still true and the oscillator still current; both change when the timer has fired.
\<close>

theorem stop_updates_state_after_delay:
  "oscillator playing432 = Some 0 \<and> isPlaying playing432
   \<and> isPlaying (step (Call Stop) playing432)
   \<and> oscillator (step (Call Stop) playing432) = Some 0
   \<and> timers (step (Call Stop) playing432) = [(800, StopAfterFade (Caller (1, StopSound)))]
   \<and> \<not> isPlaying (run [Call Stop, Advance 800, FireTimer] playing432)
   \<and> oscillator (run [Call Stop, Advance 800, FireTimer] playing432) = None"
  by (simp add: playing432_def engine_defs)

section \<open>Frequency validation\<close>

text \<open>
  Claim C6. A frequency is valid exactly when it is a finite number above 0 and below
  20000. \<open>playFrequency\<close> and \<open>transitionFrequency\<close> reject at once with
  \<open>InvalidFrequency\<close>, changing nothing but the settled promise, exactly when the
  frequency is not valid. -5, 0, NaN and 25000 are rejected so, and \<open>playFrequency(432)\<close>
  resolves on a browser with the Web Audio API.
\<close>

theorem invalid_frequency_rejected_iff:
  "(isValidFrequency freq \<longleftrightarrow> (\<exists>r. freq = JNumber (Fin r) \<and> 0 < r \<and> r < 20000))
   \<and> (\<not> isValidFrequency freq \<longleftrightarrow>
        step (Call (Play freq)) w =
          w\<lparr>nextCall := Suc (nextCall w),
            outcomes := outcomes w @ [((nextCall w, PlayFrequency), Rejected (InvalidFrequency freq))]\<rparr>)
   \<and> (\<not> isValidFrequency freq \<longleftrightarrow>
        step (Call (Transition freq)) w =
          w\<lparr>nextCall := Suc (nextCall w),
            outcomes := outcomes w @ [((nextCall w, TransitionFrequency), Rejected (InvalidFrequency freq))]\<rparr>)
   \<and> outcomes (run [Call (Play (JNumber (Fin (-5)))), Call (Play (JNumber (Fin 0))),
                    Call (Play (JNumber NaN)), Call (Play (JNumber (Fin 25000))),
                    Call (Play (JNumber (Fin 432))), Microtask] (boot browser None))
       = [((0, PlayFrequency), Rejected (InvalidFrequency (JNumber (Fin (-5))))),
          ((1, PlayFrequency), Rejected (InvalidFrequency (JNumber (Fin 0)))),
          ((2, PlayFrequency), Rejected (InvalidFrequency (JNumber NaN))),
          ((3, PlayFrequency), Rejected (InvalidFrequency (JNumber (Fin 25000)))),
          ((4, PlayFrequency), Resolved (Timestamp 0))]"
proof (intro conjI)
  show "isValidFrequency freq \<longleftrightarrow> (\<exists>r. freq = JNumber (Fin r) \<and> 0 < r \<and> r < 20000)"
    by (rule isValidFrequency_iff)
next
  let ?w0 = "w\<lparr>nextCall := Suc (nextCall w)\<rparr>"
  have valid: "outcomes (awaitEnsure p k ?w0) = outcomes w" for p k
    by (simp add: outcomes_awaitEnsure)
  show "\<not> isValidFrequency freq \<longleftrightarrow>
        step (Call (Play freq)) w =
          w\<lparr>nextCall := Suc (nextCall w),
            outcomes := outcomes w @ [((nextCall w, PlayFrequency), Rejected (InvalidFrequency freq))]\<rparr>"
  proof
    assume "\<not> isValidFrequency freq"
    then show "step (Call (Play freq)) w =
          w\<lparr>nextCall := Suc (nextCall w),
            outcomes := outcomes w @ [((nextCall w, PlayFrequency), Rejected (InvalidFrequency freq))]\<rparr>"
      by (simp add: invoke_def playFrequency_def settle_def Let_def)
  next
    assume eq: "step (Call (Play freq)) w =
          w\<lparr>nextCall := Suc (nextCall w),
            outcomes := outcomes w @ [((nextCall w, PlayFrequency), Rejected (InvalidFrequency freq))]\<rparr>"
    show "\<not> isValidFrequency freq"
    proof
      assume v: "isValidFrequency freq"
      then have "outcomes (step (Call (Play freq)) w) = outcomes w"
        by (simp add: invoke_def playFrequency_def valid Let_def)
      with eq show False by simp
    qed
  qed
  show "\<not> isValidFrequency freq \<longleftrightarrow>
        step (Call (Transition freq)) w =
          w\<lparr>nextCall := Suc (nextCall w),
            outcomes := outcomes w @ [((nextCall w, TransitionFrequency), Rejected (InvalidFrequency freq))]\<rparr>"
  proof
    assume "\<not> isValidFrequency freq"
    then show "step (Call (Transition freq)) w =
          w\<lparr>nextCall := Suc (nextCall w),
            outcomes := outcomes w @ [((nextCall w, TransitionFrequency), Rejected (InvalidFrequency freq))]\<rparr>"
      by (simp add: invoke_def transitionFrequency_def settle_def Let_def)
  next
    assume eq: "step (Call (Transition freq)) w =
          w\<lparr>nextCall := Suc (nextCall w),
            outcomes := outcomes w @ [((nextCall w, TransitionFrequency), Rejected (InvalidFrequency freq))]\<rparr>"
    show "\<not> isValidFrequency freq"
    proof
      assume v: "isValidFrequency freq"
      then have "outcomes (step (Call (Transition freq)) w) = outcomes w"
        by (simp add: invoke_def transitionFrequency_def playFrequency_def valid Let_def)
      with eq show False by simp
    qed
  qed
next
  show "outcomes (run [Call (Play (JNumber (Fin (-5)))), Call (Play (JNumber (Fin 0))),
                    Call (Play (JNumber NaN)), Call (Play (JNumber (Fin 25000))),
                    Call (Play (JNumber (Fin 432))), Microtask] (boot browser None))
       = [((0, PlayFrequency), Rejected (InvalidFrequency (JNumber (Fin (-5))))),
          ((1, PlayFrequency), Rejected (InvalidFrequency (JNumber (Fin 0)))),
          ((2, PlayFrequency), Rejected (InvalidFrequency (JNumber NaN))),
          ((3, PlayFrequency), Rejected (InvalidFrequency (JNumber (Fin 25000)))),
          ((4, PlayFrequency), Resolved (Timestamp 0))]"
    by (simp add: engine_defs)
qed

theorem invalid_frequency_rejected_iff_witness:
  "\<not> isValidFrequency (JNumber Infinity)
   \<and> step (Call (Transition (JNumber Infinity))) playing432 =
       playing432\<lparr>nextCall := 2,
         outcomes := [((0, PlayFrequency), Resolved (Timestamp 0)),
                      ((1, TransitionFrequency), Rejected (InvalidFrequency (JNumber Infinity)))]\<rparr>"
  using invalid_frequency_rejected_iff [of "JNumber Infinity" playing432]
  by (simp add: playing432_def engine_defs)

section \<open>Stopping\<close>

text \<open>
  Claim C7. Whatever \<open>stop\<close> or \<open>disconnect\<close> throws inside \<open>stopSound\<close>, the
  error is caught and logged with \<open>console.warn\<close>, the current oscillator is cleared and
  \<open>isPlaying\<close> is false afterwards, and the promise resolves with the wall clock.
  Whichever way \<open>stopSound\<close> returns, it never leaves \<open>isPlaying\<close> true together
  with a current oscillator.
\<close>

theorem stop_clears_state_on_error:
  "oscillator (teardown w) = None \<and> \<not> isPlaying (teardown w)
   \<and> (\<forall>v. oscillator w = Some v \<and> (stopThrows (platform w) v \<or> disconnectThrows (platform w) v)
         \<longrightarrow> console (teardown w) = console w @ [Warn ''Error stopping oscillator''])
   \<and> oscillator (stopSound_resume (Caller p) w) = None
   \<and> \<not> isPlaying (stopSound_resume (Caller p) w)
   \<and> outcomes (stopSound_resume (Caller p) w) = outcomes w @ [(p, Resolved (Timestamp (wallClock w)))]
   \<and> (timers (stopSound (Caller p) w) = timers w \<longrightarrow>
        \<not> (isPlaying (stopSound (Caller p) w) \<and> oscillator (stopSound (Caller p) w) \<noteq> None)
        \<and> (\<exists>r. outcomes (stopSound (Caller p) w) = outcomes w @ [(p, Resolved r)]))"
  by (auto simp: teardown_def stopSound_resume_def stopSound_def settle_def say_def Let_def
      split: option.splits)

theorem stop_clears_state_on_error_witness:
  "oscillator (run [Call (Play (JNumber (Fin 432))), Microtask] (boot brittle None)) = Some 0
   \<and> stopThrows (platform (run [Call (Play (JNumber (Fin 432))), Microtask] (boot brittle None))) 0
   \<and> oscillator (run [Call (Play (JNumber (Fin 432))), Microtask, Call Stop, Advance 800, FireTimer]
        (boot brittle None)) = None
   \<and> \<not> isPlaying (run [Call (Play (JNumber (Fin 432))), Microtask, Call Stop, Advance 800, FireTimer]
        (boot brittle None))
   \<and> console (run [Call (Play (JNumber (Fin 432))), Microtask, Call Stop, Advance 800, FireTimer]
        (boot brittle None)) = [Warn ''Error stopping oscillator'']
   \<and> outcomes (run [Call (Play (JNumber (Fin 432))), Microtask, Call Stop, Advance 800, FireTimer]
        (boot brittle None))
       = [((0, PlayFrequency), Resolved (Timestamp 0)), ((1, StopSound), Resolved (Timestamp 800))]
   \<and> timers (stopSound (Caller (0, StopSound)) (boot brittle None)) = timers (boot brittle None)
   \<and> outcomes (stopSound (Caller (0, StopSound)) (boot brittle None))
       = [((0, StopSound), Resolved Null)]"
  using stop_clears_state_on_error
    [of "run [Call (Play (JNumber (Fin 432))), Microtask, Call Stop, Advance 800] (boot brittle None)
           \<lparr>timers := []\<rparr>" "(1, StopSound)"]
    stop_clears_state_on_error [of "boot brittle None" "(0, StopSound)"]
  by (simp add: brittle_def engine_defs)

section \<open>Volume\<close>

text \<open>
  Claim C8. The gain \<open>setVolume\<close> computes lies between 0 and 0.3; for a percentage
  between 0 and 100 it is the percentage divided by 100, times 0.3, and percentages outside
  are clamped to 0 and to 0.3. It is the value \<open>setVolume\<close> ramps the gain node to.
\<close>

theorem volume_gain_ceiling:
  "0 \<le> audioVolume percent \<and> audioVolume percent \<le> 0.3
   \<and> (0 \<le> percent \<and> percent \<le> 100 \<longrightarrow> audioVolume percent = percent / 100 * 0.3)
   \<and> (percent < 0 \<longrightarrow> audioVolume percent = 0)
   \<and> (100 < percent \<longrightarrow> audioVolume percent = 0.3)
   \<and> (gainNode w = Some g \<longrightarrow>
        last (gainSchedule (setVolume n w)) =
          LinearRampToValueAtTime (audioVolume (real_of_int n)) (audioNow w + 0.1))"
  by (auto simp: audioVolume_def normalizedVolume_def gainSchedule_def setVolume_def Let_def
      audioNow_def say_def max_def min_def split: option.splits)

theorem volume_gain_ceiling_witness:
  "(0::real) \<le> 50 \<and> (50::real) \<le> 100 \<and> audioVolume 50 = 0.15
   \<and> (-5::real) < 0 \<and> audioVolume (-5) = 0
   \<and> (100::real) < 150 \<and> audioVolume 150 = 0.3
   \<and> gainNode ready = Some \<lparr>gainValue = 0, gainEvents = [], toDestination = True\<rparr>
   \<and> last (gainSchedule (setVolume 50 ready)) = LinearRampToValueAtTime 0.15 0.1"
  using volume_gain_ceiling [of 50 ready "\<lparr>gainValue = 0, gainEvents = [], toDestination = True\<rparr>" 50]
    volume_gain_ceiling [of "-5" ready "\<lparr>gainValue = 0, gainEvents = [], toDestination = True\<rparr>" 50]
    volume_gain_ceiling [of 150 ready "\<lparr>gainValue = 0, gainEvents = [], toDestination = True\<rparr>" 50]
  by (simp add: ready_def engine_defs)

text \<open>
  Claim C9, as amended. Whenever the gain node exists, with or without a current
  oscillator, \<open>setVolume\<close> anchors the gain at its current value and ramps it to the new
  ceiling over 0.1 s; it never sets the value directly. Before the gain node exists it
  does nothing.
\<close>

theorem setVolume_always_ramps:
  "(gainNode w = Some g \<longrightarrow>
      gainNode (setVolume n w) =
        Some (g\<lparr>gainEvents := gainEvents g @
                 [SetValueAtTime (gainValue g) (audioNow w),
                  LinearRampToValueAtTime (audioVolume (real_of_int n)) (audioNow w + 0.1)]\<rparr>))
   \<and> (gainNode w = None \<longrightarrow> setVolume n w = w)"
  by (auto simp: setVolume_def Let_def audioNow_def say_def split: option.splits)

theorem setVolume_always_ramps_witness:
  "gainNode ready = Some \<lparr>gainValue = 0, gainEvents = [], toDestination = True\<rparr>
   \<and> gainNode (setVolume 50 ready) =
       Some \<lparr>gainValue = 0,
             gainEvents = [SetValueAtTime 0 0, LinearRampToValueAtTime 0.15 0.1],
             toDestination = True\<rparr>
   \<and> gainNode (boot browser None) = None
   \<and> setVolume 50 (boot browser None) = boot browser None"
  using setVolume_always_ramps [of ready "\<lparr>gainValue = 0, gainEvents = [], toDestination = True\<rparr>" 50]
    setVolume_always_ramps [of "boot browser None" undefined 50]
  by (simp add: ready_def engine_defs)

text \<open>
  Against C9 as stated: with a gain node and no current oscillator, \<open>setVolume(50)\<close>
  leaves the gain value at 0 and schedules a ramp to 0.15.
\<close>

theorem setVolume_idle_not_direct:
  "oscillator ready = None \<and> \<not> isPlaying ready
   \<and> map_option gainValue (gainNode ready) = Some 0
   \<and> map_option gainValue (gainNode (setVolume 50 ready)) = Some 0
   \<and> gainSchedule (setVolume 50 ready) =
       [SetValueAtTime 0 0, LinearRampToValueAtTime 0.15 0.1]"
  by (simp add: ready_def engine_defs)

section \<open>The playing flag and the current oscillator\<close>

text \<open>
  Claim C10. After any run of the page from the freshly loaded module, \<open>getIsPlaying\<close>
  is true exactly when there is a current oscillator. Every step of the engine keeps this
  equivalence once the audio graph is in place, and \<open>setVolume\<close> and \<open>setMuteState\<close>
  change neither variable.
\<close>

theorem playing_iff_current_oscillator:
  "(getIsPlaying (run es (boot p vol)) \<longleftrightarrow> oscillator (run es (boot p vol)) \<noteq> None)
   \<and> (coupled w \<and> wired w \<longrightarrow> coupled (step e w) \<and> wired (step e w))
   \<and> oscillator (setVolume n w) = oscillator w \<and> isPlaying (setVolume n w) = isPlaying w
   \<and> oscillator (setMuteState q m w) = oscillator w \<and> isPlaying (setMuteState q m w) = isPlaying w
   \<and> oscillator (setMuteState_resume q m w) = oscillator w
   \<and> isPlaying (setMuteState_resume q m w) = isPlaying w"
proof -
  have "sound (run es (boot p vol))" by (simp add: sound_run sound_boot)
  moreover have "coupled w \<and> wired w \<longrightarrow> coupled (step e w) \<and> wired (step e w)"
    using sound_step [of w e] by (simp add: sound_def)
  moreover have "oscillator (setVolume n w) = oscillator w \<and> isPlaying (setVolume n w) = isPlaying w"
    by (simp add: setVolume_def say_def Let_def split: option.splits)
  moreover have "oscillator (setMuteState q m w) = oscillator w \<and> isPlaying (setMuteState q m w) = isPlaying w"
    by (simp add: setMuteState_def awaitEnsure_def ensureAudioContext_def Let_def split: option.splits)
  moreover have "oscillator (setMuteState_resume q m w) = oscillator w
      \<and> isPlaying (setMuteState_resume q m w) = isPlaying w"
    by (simp add: setMuteState_resume_def settle_def split: option.splits)
  ultimately show ?thesis by (simp add: sound_def coupled_def)
qed

theorem playing_iff_current_oscillator_witness:
  "coupled playing432 \<and> wired playing432
   \<and> getIsPlaying playing432 \<and> oscillator playing432 = Some 0
   \<and> coupled (step FireTimer (run [Call Stop, Advance 800] playing432))
   \<and> \<not> getIsPlaying (run [Call Stop, Advance 800, FireTimer] playing432)
   \<and> oscillator (run [Call Stop, Advance 800, FireTimer] playing432) = None"
  using playing_iff_current_oscillator
    [of "[Call (Play (JNumber (Fin 432))), Microtask, Call Stop, Advance 800, FireTimer]" browser None
        playing432 "Call Stop"]
    playing_iff_current_oscillator
    [of "[]" browser None "run [Call Stop, Advance 800] playing432" FireTimer]
  by (simp add: playing432_def coupled_def wired_def getIsPlaying_def engine_defs)

section \<open>Connected oscillators\<close>

text \<open>
  Claim C1, as amended. After any run of the page from the freshly loaded module, every
  oscillator connected to the gain node is the current one, or an outgoing one whose
  cleanup timer is still pending, or one whose \<open>stop\<close> or \<open>disconnect\<close> threw. On a
  browser where neither throws, the number of connected oscillators is at most one plus
  the number of pending timers, so it can exceed two while crossfades overlap, and it is
  at most one once nothing is pending.
\<close>

theorem connected_voices_accounted_for:
  assumes "w = run es (boot p vol)"
  shows "(\<forall>i < length (voices w). connected (voices w ! i) \<longrightarrow>
            oscillator w = Some i \<or> Cleanup i \<in> snd ` set (timers w)
            \<or> stopThrows p i \<or> disconnectThrows p i)
    \<and> (stopThrows p = (\<lambda>v. False) \<and> disconnectThrows p = (\<lambda>v. False) \<longrightarrow>
          connectedCount w \<le> 1 + length (timers w) \<and> (settled w \<longrightarrow> connectedCount w \<le> 1))"
proof -
  have c: "covered w" unfolding assms by (rule covered_run)
  have p: "platform w = p" unfolding assms by (simp add: boot_def)
  show ?thesis
  proof (intro conjI impI)
    show "\<forall>i < length (voices w). connected (voices w ! i) \<longrightarrow>
            oscillator w = Some i \<or> Cleanup i \<in> snd ` set (timers w)
            \<or> stopThrows p i \<or> disconnectThrows p i"
      using c p by (simp add: covered_def)
  next
    assume "stopThrows p = (\<lambda>v. False) \<and> disconnectThrows p = (\<lambda>v. False)"
    then show "connectedCount w \<le> 1 + length (timers w)"
      using covered_count [OF c] p by simp
  next
    assume "stopThrows p = (\<lambda>v. False) \<and> disconnectThrows p = (\<lambda>v. False)"
    then have "connectedCount w \<le> 1 + length (timers w)"
      using covered_count [OF c] p by simp
    moreover assume "settled w"
    ultimately show "connectedCount w \<le> 1" by (simp add: settled_def)
  qed
qed

theorem connected_voices_accounted_for_witness:
  "stopThrows browser = (\<lambda>v. False) \<and> disconnectThrows browser = (\<lambda>v. False)
   \<and> settled (run (rapid @ [Advance 275, FireTimer, FireTimer]) (boot browser None))
   \<and> connectedCount (run (rapid @ [Advance 275, FireTimer, FireTimer]) (boot browser None)) \<le> 1
   \<and> map connected (voices (run (rapid @ [Advance 275, FireTimer, FireTimer]) (boot browser None)))
       = [False, False, True]"
  using connected_voices_accounted_for
    [of "run (rapid @ [Advance 275, FireTimer, FireTimer]) (boot browser None)"
      "rapid @ [Advance 275, FireTimer, FireTimer]" browser None]
  by (simp add: rapid_def settled_def connectedCount_def engine_defs)

text \<open>
  Against C1 as stated: after \<open>playFrequency(432)\<close> and two \<open>transitionFrequency\<close>
  calls made before the first cleanup timer is due, three oscillators are connected.
\<close>

theorem three_voices_connected_in_overlapping_crossfades:
  "connectedCount (run rapid (boot browser None)) = 3
   \<and> oscillator (run rapid (boot browser None)) = Some 2
   \<and> timers (run rapid (boot browser None)) = [(275, Cleanup 0), (275, Cleanup 1)]
   \<and> wallClock (run rapid (boot browser None)) = 0"
  by (simp add: rapid_def connectedCount_def engine_defs)

section \<open>Rejected promises\<close>




text \<open>
  The third case of the theorem does occur: the context starts suspended and the first
  \<open>resume\<close> is declined, a tone is started and stopped, and a \<open>transitionFrequency\<close>
  called during the fade is still waiting for its own \<open>resume\<close> when the fade timer
  clears the current oscillator.
\<close>

lemma transition_resumed_without_oscillator:
  "outcomes (run [Call (Play (JNumber (Fin 432))), ResumeSettles False, Microtask, Call Stop,
      Call (Transition (JNumber (Fin 528))), Advance 800, FireTimer, ResumeSettles True, Microtask]
      (boot muted_start None))
   = [((0, PlayFrequency), Resolved (Timestamp 0)), ((1, StopSound), Resolved (Timestamp 800)),
      ((2, TransitionFrequency), Rejected (TypeError ''oscillator is null''))]"
  by (simp add: muted_start_def engine_defs)

end
